theory Spec2Isabelle
  imports
    Main
    "HOL-Library.Sublist"
    "HOL-Library.Char_ord"
    "HOL-Library.List_Lexorder"
    "HOL-Library.Multiset"
begin

section \<open>The sdkmanager report parser of \<open>src/services/sdkmanager.ts\<close>\<close>

text \<open>
  The synchronous core of the file is embedded: \<open>parseList\<close>, \<open>sort\<close>,
  \<open>parsePackageName\<close> and \<open>cmpVersions\<close>, with the string built-ins they call.
  Strings are lists of 8-bit characters (one \<open>char\<close> per UTF-16 code unit, which covers
  the Latin-1 range). A JavaScript \<open>undefined\<close> is \<open>None\<close>, a thrown \<open>TypeError\<close>
  is \<open>Inl TypeError\<close>. Numbers are IEEE doubles, modelled by their exact values with
  the rounding written out.
\<close>

subsection \<open>String built-ins\<close>

text \<open>\<open>String.prototype.startsWith\<close> and \<open>endsWith\<close>.\<close>

definition startsWith :: "string \<Rightarrow> string \<Rightarrow> bool" where
  "startsWith s t = (take (length t) s = t)"

definition endsWith :: "string \<Rightarrow> string \<Rightarrow> bool" where
  "endsWith s t = (length t \<le> length s \<and> drop (length s - length t) s = t)"

text \<open>
  White space as \<open>trim\<close> and \<open>parseInt\<close> see it, within the 8-bit range: TAB, LF, VT,
  FF, CR, SPACE and NO-BREAK SPACE.
\<close>

definition is_ws :: "char \<Rightarrow> bool" where
  "is_ws c = (c = CHR 0x09 \<or> c = CHR 0x0A \<or> c = CHR 0x0B \<or> c = CHR 0x0C
            \<or> c = CHR 0x0D \<or> c = CHR 0x20 \<or> c = CHR 0xA0)"

definition trim :: "string \<Rightarrow> string" where
  "trim s = rev (dropWhile is_ws (rev (dropWhile is_ws s)))"

text \<open>
  \<open>s.split(sep)\<close> for a non-empty separator string: the occurrences of \<open>sep\<close> are
  found from left to right without overlap; the result always has at least one element.
  (The source only splits on \<open>'| '\<close>, \<open>';'\<close> and \<open>'.'\<close>.)
\<close>

function js_split :: "string \<Rightarrow> string \<Rightarrow> string list" where
  "js_split sep [] = [[]]"
| "js_split sep (c # cs) =
     (if sep \<noteq> [] \<and> take (length sep) (c # cs) = sep
      then [] # js_split sep (drop (length sep) (c # cs))
      else (case js_split sep cs of
              [] \<Rightarrow> [[c]]
            | l # ls \<Rightarrow> (c # l) # ls))"
  by pat_completeness auto
termination
  by (relation "measure (\<lambda>(sep, s). length s)") (auto simp: neq_Nil_conv)

text \<open>
  \<open>stdout.split(/\r?\n/)\<close>: a line ends at LF or at CR LF; a CR that is not followed by
  LF stays in its line.
\<close>

function split_lines :: "string \<Rightarrow> string list" where
  "split_lines [] = [[]]"
| "split_lines (c # cs) =
     (if c = CHR 0x0A then [] # split_lines cs
      else if c = CHR 0x0D \<and> take 1 cs = [CHR 0x0A] then [] # split_lines (drop 1 cs)
      else (case split_lines cs of
              [] \<Rightarrow> [[c]]
            | l # ls \<Rightarrow> (c # l) # ls))"
  by pat_completeness auto
termination
  by (relation "measure length") auto

text \<open>\<open>Array.prototype.join\<close> on an array of strings.\<close>

fun js_join :: "string \<Rightarrow> string list \<Rightarrow> string" where
  "js_join sep [] = []"
| "js_join sep [x] = x"
| "js_join sep (x # y # ys) = x @ sep @ js_join sep (y # ys)"

text \<open>Reading an array element: \<open>None\<close> is \<open>undefined\<close>.\<close>

definition at :: "'a list \<Rightarrow> nat \<Rightarrow> 'a option" where
  "at xs i = (if i < length xs then Some (xs ! i) else None)"

text \<open>\<open>Array.prototype.findIndex\<close>: \<open>None\<close> is the result \<open>-1\<close>.\<close>

fun findIndex :: "('a \<Rightarrow> bool) \<Rightarrow> 'a list \<Rightarrow> nat option" where
  "findIndex P [] = None"
| "findIndex P (x # xs) =
     (if P x then Some 0 else map_option Suc (findIndex P xs))"

text \<open>
  Numbers. A JavaScript Number is an IEEE 754 double. The Numbers that arise in this
  file are integers, the two infinities and not-a-number, so a Number is modelled by its
  exact value. \<open>to_double n\<close> is the Number nearest to the integer \<open>n\<close>: integers below
  \<open>2^53\<close> in magnitude are Numbers themselves; a larger one keeps its 53 leading bits,
  rounded to nearest with ties to the even neighbour, and becomes an infinity when
  the rounded value reaches \<open>2^1024\<close>. Negative zero is not told apart from zero: both
  are falsy and neither is below zero. \<open>bit_count m\<close> is the number of binary digits of
  \<open>m\<close>.
\<close>

datatype number = NaN | Num int | PosInfinity | NegInfinity

function bit_count :: "int \<Rightarrow> nat" where
  "bit_count m = (if m \<le> 0 then 0 else Suc (bit_count (m div 2)))"
  by pat_completeness auto
termination
  by (relation "measure nat") auto

definition to_double :: "int \<Rightarrow> number" where
  "to_double n =
     (let m = \<bar>n\<bar>
      in if m < 2 ^ 53 then Num n
         else (let e = bit_count m - 53;
                   q = m div 2 ^ e;
                   r = m mod 2 ^ e;
                   q' = (if 2 ^ e < 2 * r \<or> (2 * r = 2 ^ e \<and> odd q) then q + 1 else q);
                   v = q' * 2 ^ e
               in if 2 ^ 1024 \<le> v then (if n < 0 then NegInfinity else PosInfinity)
                  else Num (if n < 0 then - v else v)))"

text \<open>
  \<open>parseInt(s, 10)\<close>: leading white space is dropped, one sign is read, then the longest
  run of decimal digits; no digit gives not-a-number, and otherwise the result is the
  Number nearest to the signed value of the digits (the engine converts the digits
  exactly; the licence of the standard to read digits after the 20th as zeros is not
  taken).
\<close>

definition is_digit :: "char \<Rightarrow> bool" where
  "is_digit c = (CHR ''0'' \<le> c \<and> c \<le> CHR ''9'')"

definition digits_value :: "string \<Rightarrow> int" where
  "digits_value ds = foldl (\<lambda>acc d. 10 * acc + (of_char d - 48)) 0 ds"

definition parseInt :: "string \<Rightarrow> number" where
  "parseInt s =
     (let s1 = dropWhile is_ws s;
          sign = (if take 1 s1 = ''-'' then - 1 else (1::int));
          s2 = (if take 1 s1 = ''-'' \<or> take 1 s1 = ''+'' then drop 1 s1 else s1);
          z = takeWhile is_digit s2
      in if z = [] then NaN else to_double (sign * digits_value z))"

text \<open>
  The operator \<open>-\<close> on two Numbers: the exact difference of two finite values, rounded
  again; not-a-number as soon as one side is, and for two infinities of the same sign.
\<close>

fun num_sub :: "number \<Rightarrow> number \<Rightarrow> number" where
  "num_sub NaN y = NaN"
| "num_sub x NaN = NaN"
| "num_sub (Num a) (Num b) = to_double (a - b)"
| "num_sub (Num a) PosInfinity = NegInfinity"
| "num_sub (Num a) NegInfinity = PosInfinity"
| "num_sub PosInfinity PosInfinity = NaN"
| "num_sub PosInfinity y = PosInfinity"
| "num_sub NegInfinity NegInfinity = NaN"
| "num_sub NegInfinity y = NegInfinity"

text \<open>
  \<open>if (diff)\<close> is taken for a truthy Number: every Number except zero and
  not-a-number. \<open>less_zero x\<close> is the test \<open>x < 0\<close>.
\<close>

fun truthy :: "number \<Rightarrow> bool" where
  "truthy NaN = False"
| "truthy (Num d) = (d \<noteq> 0)"
| "truthy PosInfinity = True"
| "truthy NegInfinity = True"

fun less_zero :: "number \<Rightarrow> bool" where
  "less_zero NaN = False"
| "less_zero (Num d) = (d < 0)"
| "less_zero PosInfinity = False"
| "less_zero NegInfinity = True"

subsection \<open>\<open>cmpVersions\<close>\<close>

text \<open>
  The regular expression \<open>/(\.0+)+$/\<close>: \<open>dot_zeros s\<close> holds when the whole of \<open>s\<close> is
  one or more groups of a dot followed by one or more zeros; \<open>zeros_then s\<close> is the state
  after a dot. \<open>replace\<close> removes the leftmost match, that is, from the first position
  whose remainder is such a run of groups.
\<close>

fun dot_zeros :: "string \<Rightarrow> bool" and zeros_then :: "string \<Rightarrow> bool" where
  "dot_zeros [] = False"
| "dot_zeros (c # cs) = (c = CHR ''.'' \<and> zeros_then cs)"
| "zeros_then [] = False"
| "zeros_then (c # cs) = (c = CHR ''0'' \<and> (cs = [] \<or> zeros_then cs \<or> dot_zeros cs))"

fun strip0 :: "string \<Rightarrow> string" where
  "strip0 [] = []"
| "strip0 (c # cs) = (if dot_zeros (c # cs) then [] else c # strip0 cs)"

text \<open>
  The \<open>for\<close> loop of \<open>cmpVersions\<close>: the first truthy difference is returned; a
  difference that is zero or not-a-number lets the loop go on. After the loop the
  difference of the two array lengths is returned.
\<close>

function cmp_loop :: "string list \<Rightarrow> string list \<Rightarrow> nat \<Rightarrow> nat \<Rightarrow> number" where
  "cmp_loop segmentsA segmentsB l i =
     (if i < l then
        (if truthy (num_sub (parseInt (segmentsA ! i)) (parseInt (segmentsB ! i)))
         then num_sub (parseInt (segmentsA ! i)) (parseInt (segmentsB ! i))
         else cmp_loop segmentsA segmentsB l (i + 1))
      else Num (int (length segmentsA) - int (length segmentsB)))"
  by pat_completeness auto
termination
  by (relation "measure (\<lambda>(a, b, l, i). l - i)") auto

definition cmpVersions :: "string \<Rightarrow> string \<Rightarrow> number" where
  "cmpVersions a b =
     (let segmentsA = js_split ''.'' (strip0 a);
          segmentsB = js_split ''.'' (strip0 b);
          l = min (length segmentsA) (length segmentsB)
      in cmp_loop segmentsA segmentsB l 0)"

subsection \<open>Packages\<close>

datatype error = TypeError

datatype InstallStates = Installed | Available | Updateable

text \<open>
  The class \<open>Package\<close>. The fields \<open>version\<close> and \<open>description\<close> receive
  \<open>elements[1]\<close> and \<open>elements[2]\<close>, which are \<open>undefined\<close> on a line with fewer
  fields; \<open>details\<close> is never assigned.
\<close>

record Package =
  category :: string
  name :: string
  rawName :: string
  details :: "string list option"
  description :: "string option"
  version :: "string option"
  state :: InstallStates

text \<open>
  \<open>parsePackageName\<close> returns the pair \<open>[name, category]\<close>. The test \<open>names[1] ? _ : _\<close>
  is on truthiness: a missing second segment and an empty one both take the else branch.
\<close>

definition parsePackageName :: "string \<Rightarrow> string \<times> string" where
  "parsePackageName nm =
     (let names = js_split '';'' nm
      in ((case at names 1 of
             None \<Rightarrow> hd names
           | Some n1 \<Rightarrow> if n1 \<noteq> [] then js_join ''; '' (drop 1 names) else hd names),
          hd names))"

text \<open>\<open>lines[pointer].split('| ').map(e => e.trim())\<close>\<close>

definition split_elements :: "string \<Rightarrow> string list" where
  "split_elements line = map trim (js_split ''| '' line)"

text \<open>
  The block that builds a package from \<open>elements\<close> (lines 69 to 74 with the state
  \<open>Installed\<close>, lines 97 to 102 with \<open>Available\<close>). \<open>split\<close> never returns an empty
  array; were \<open>elements[0]\<close> undefined, \<open>parsePackageName\<close> would throw on \<open>name.split\<close>.
\<close>

definition newPackage :: "InstallStates \<Rightarrow> string list \<Rightarrow> error + Package" where
  "newPackage st elements =
     (case at elements 0 of
        None \<Rightarrow> Inl TypeError
      | Some raw \<Rightarrow>
          (let (nm, cat) = parsePackageName raw
           in Inr \<lparr>category = cat, name = nm, rawName = raw, details = None,
                   description = at elements 2, version = at elements 1, state = st\<rparr>))"

subsection \<open>\<open>parseList\<close>\<close>

text \<open>
  The first loop (\<open>// skip\<close>): the cursor stops three lines after the first line that
  ends with the header, and at \<open>lines.length\<close> when there is none.
\<close>

function skip_loop :: "string list \<Rightarrow> nat \<Rightarrow> nat" where
  "skip_loop lines pointer =
     (if pointer < length lines then
        (if endsWith (lines ! pointer) ''Installed packages:'' then pointer + 3
         else skip_loop lines (pointer + 1))
      else pointer)"
  by pat_completeness auto
termination
  by (relation "measure (\<lambda>(lines, pointer). length lines - pointer)") auto

text \<open>
  The second loop (\<open>// installed packages\<close>). After a blank line the cursor moves on by
  one without a new bounds test, so \<open>lines[pointer]\<close> may be \<open>undefined\<close> and
  \<open>.startsWith\<close> then throws. The result is the cursor and the array after the loop.
\<close>

function installed_loop ::
  "string list \<Rightarrow> nat \<Rightarrow> Package list \<Rightarrow> error + (nat \<times> Package list)" where
  "installed_loop lines pointer packages =
     (if pointer < length lines then
        (let pointer1 = (if lines ! pointer = [] then pointer + 1 else pointer)
         in case at lines pointer1 of
              None \<Rightarrow> Inl TypeError
            | Some line \<Rightarrow>
                if startsWith line ''Available Packages:'' then Inr (pointer1 + 3, packages)
                else (case newPackage Installed (split_elements line) of
                        Inl e \<Rightarrow> Inl e
                      | Inr p \<Rightarrow> installed_loop lines (pointer1 + 1) (packages @ [p])))
      else Inr (pointer, packages))"
  by pat_completeness auto
termination
  by (relation "measure (\<lambda>(lines, pointer, packages). length lines - pointer)")
     (auto simp: at_def split: if_splits)

text \<open>
  The body of the third loop for a data line (lines 94 to 113): a package that is not
  in the array is pushed as \<open>Available\<close>; for one that is, the first entry with that
  \<open>rawName\<close> is compared and possibly rewritten in place. \<open>cmpVersions\<close> calls
  \<open>.replace\<close> on both arguments, so an \<open>undefined\<close> version throws.
\<close>

definition merge_available :: "string list \<Rightarrow> Package list \<Rightarrow> error + Package list" where
  "merge_available elements packages =
     (case findIndex (\<lambda>pkg. Some (rawName pkg) = at elements 0) packages of
        None \<Rightarrow>
          (case newPackage Available elements of
             Inl e \<Rightarrow> Inl e
           | Inr p \<Rightarrow> Inr (packages @ [p]))
      | Some index \<Rightarrow>
          (let p = packages ! index; rv = at elements 1
           in case version p of
                None \<Rightarrow> Inl TypeError
              | Some pv \<Rightarrow>
                  (case rv of
                     None \<Rightarrow> Inl TypeError
                   | Some r \<Rightarrow>
                       if less_zero (cmpVersions pv r)
                       then Inr (packages[index := p\<lparr>state := Updateable,
                                                   version := Some (pv @ ''('' @ r @ '')'')\<rparr>])
                       else Inr packages)))"

text \<open>
  The third loop (\<open>// available packages\<close>). On a blank line the body adds one to the
  cursor and \<open>continue\<close> runs the loop's own increment, so the cursor moves on by two.
\<close>

function available_loop ::
  "string list \<Rightarrow> nat \<Rightarrow> Package list \<Rightarrow> error + Package list" where
  "available_loop lines pointer packages =
     (if pointer < length lines then
        (if lines ! pointer = [] then available_loop lines (pointer + 1 + 1) packages
         else if startsWith (lines ! pointer) ''Available Updates:'' then Inr packages
         else (case merge_available (split_elements (lines ! pointer)) packages of
                 Inl e \<Rightarrow> Inl e
               | Inr packages' \<Rightarrow> available_loop lines (pointer + 1) packages'))
      else Inr packages)"
  by pat_completeness auto
termination
  by (relation "measure (\<lambda>(lines, pointer, packages). length lines - pointer)") auto

definition parseList :: "string \<Rightarrow> error + Package list" where
  "parseList stdout =
     (let lines = split_lines stdout;
          pointer = skip_loop lines 0
      in case installed_loop lines pointer [] of
           Inl e \<Rightarrow> Inl e
         | Inr (pointer', packages) \<Rightarrow> available_loop lines pointer' packages)"

subsection \<open>\<open>sort\<close>\<close>

text \<open>
  \<open>String.prototype.toLowerCase\<close> on the 8-bit range: the letters A to Z and the
  Latin-1 capitals (0xC0 to 0xDE without the multiplication sign 0xD7) move up by 32.
\<close>

definition lower_char :: "char \<Rightarrow> char" where
  "lower_char c =
     (let n = (of_char c :: nat)
      in if (65 \<le> n \<and> n \<le> 90) \<or> (192 \<le> n \<and> n \<le> 222 \<and> n \<noteq> 215)
         then char_of (n + 32) else c)"

definition toLowerCase :: "string \<Rightarrow> string" where
  "toLowerCase s = map lower_char s"

text \<open>
  The comparison function handed to \<open>Array.prototype.sort\<close>. The relation \<open><\<close> on
  strings is the lexicographic order on code units, a proper prefix being smaller.
\<close>

definition compareFn :: "string \<Rightarrow> Package \<Rightarrow> Package \<Rightarrow> int" where
  "compareFn order a b =
     (let nameA = toLowerCase (rawName a);
          nameB = toLowerCase (rawName b)
      in (if nameA < nameB then - 1 else 1) * (if order = ''asc'' then 1 else - 1))"

text \<open>
  \<open>Array.prototype.sort\<close> is a built-in of the host, not code of this file. It is
  modelled as an insertion sort driven by the sign of the comparison function: the
  elements are taken from left to right and each is put in front of the first element
  already placed that it compares below. The comparison function of \<open>sort\<close> never
  returns zero, so the order among packages whose lower-cased names are equal is the
  engine's choice; the properties below do not depend on it.
\<close>

fun insert_by :: "('a \<Rightarrow> 'a \<Rightarrow> int) \<Rightarrow> 'a \<Rightarrow> 'a list \<Rightarrow> 'a list" where
  "insert_by cmp x [] = [x]"
| "insert_by cmp x (y # ys) =
     (if cmp x y < 0 then x # y # ys else y # insert_by cmp x ys)"

definition array_sort :: "('a \<Rightarrow> 'a \<Rightarrow> int) \<Rightarrow> 'a list \<Rightarrow> 'a list" where
  "array_sort cmp xs = foldl (\<lambda>acc x. insert_by cmp x acc) [] xs"

text \<open>
  Arrays are objects: a store maps the address of an array to its contents. The
  function \<open>sort\<close> of the source is \<open>sort_packages\<close> here, the name \<open>sort\<close> being
  taken by the list library. It sorts the array at \<open>packages\<close> in place and returns
  that same address. A well-typed caller never passes an address without an array; the
  store is then left as it is.
\<close>

type_synonym addr = nat
type_synonym store = "addr \<rightharpoonup> Package list"

definition sort_packages :: "store \<Rightarrow> addr \<Rightarrow> string \<Rightarrow> store \<times> addr" where
  "sort_packages h packages order =
     (case h packages of
        None \<Rightarrow> (h, packages)
      | Some xs \<Rightarrow> (h(packages \<mapsto> array_sort (compareFn order) xs), packages))"

text \<open>The call \<open>sort(packages)\<close> with the default \<open>order = 'desc'\<close>.\<close>

definition sort_packages_default :: "store \<Rightarrow> addr \<Rightarrow> store \<times> addr" where
  "sort_packages_default h packages = sort_packages h packages ''desc''"

subsection \<open>The comparison in the words of the specification\<close>

text \<open>
  The specification describes the comparator without a loop: after the stripping, the
  segments are paired up to the shorter length, the first pair whose numeric difference
  is a number other than zero decides, and without such a pair the result is the
  difference of the segment counts. \<open>cmpVersions_spec\<close> is that description; it is
  compared with \<open>cmpVersions\<close> below.
\<close>

definition cmpVersions_spec :: "string \<Rightarrow> string \<Rightarrow> number" where
  "cmpVersions_spec a b =
     (let segmentsA = js_split ''.'' (strip0 a);
          segmentsB = js_split ''.'' (strip0 b);
          diffs = map (\<lambda>(x, y). num_sub (parseInt x) (parseInt y)) (zip segmentsA segmentsB)
      in case find truthy diffs of
           Some d \<Rightarrow> d
         | None \<Rightarrow> Num (int (length segmentsA) - int (length segmentsB)))"

section \<open>Properties\<close>

declare skip_loop.simps [simp del]
declare installed_loop.simps [simp del]
declare available_loop.simps [simp del]
declare cmp_loop.simps [simp del]
declare bit_count.simps [simp del]
declare js_split.simps [simp del]
declare split_lines.simps [simp del]

subsection \<open>The cursor of \<open>parseList\<close>\<close>

lemma skip_loop_no_header:
  "\<forall>l \<in> set lines. \<not> endsWith l ''Installed packages:'' \<Longrightarrow> pointer \<le> length lines
   \<Longrightarrow> skip_loop lines pointer = length lines"
proof (induction lines pointer rule: skip_loop.induct)
  case (1 lines pointer)
  show ?case
  proof (cases "pointer < length lines")
    case True
    then have "\<not> endsWith (lines ! pointer) ''Installed packages:''"
      using "1.prems"(1) by simp
    moreover have "skip_loop lines (pointer + 1) = length lines"
      using "1.IH" True calculation "1.prems"(1) by simp
    ultimately show ?thesis
      using True by (subst skip_loop.simps) simp
  next
    case False
    then show ?thesis
      using "1.prems"(2) by (subst skip_loop.simps) simp
  qed
qed

lemma installed_loop_at_end:
  "installed_loop lines (length lines) packages = Inr (length lines, packages)"
  by (subst installed_loop.simps) simp

lemma available_loop_at_end:
  "available_loop lines (length lines) packages = Inr packages"
  by (subst available_loop.simps) simp

lemma parseList_empty_input: "parseList [] = Inr []"
  by code_simp

text \<open>
  \<open>split\<close> never returns an empty array, so \<open>names[0]\<close> and \<open>elements[0]\<close> are
  always strings.
\<close>

lemma js_split_nonempty: "js_split sep s \<noteq> []"
  by (cases s) (auto simp: js_split.simps split: list.splits)

lemma split_lines_nonempty: "split_lines s \<noteq> []"
  by (cases s) (auto simp: split_lines.simps split: list.splits)

text \<open>
  The step of the available loop on a blank line, for any state of the loop: the cursor
  moves on by two, so the line after the blank one is never looked at.
\<close>

lemma available_loop_blank_step:
  assumes "pointer < length lines" and "lines ! pointer = []"
  shows "available_loop lines pointer packages = available_loop lines (pointer + 2) packages"
  using assms by (subst available_loop.simps) simp

text \<open>
  The step of the installed loop on a blank last line, for any state of the loop: the
  cursor moves past the end and the read of \<open>lines[pointer]\<close> gives \<open>undefined\<close>.
\<close>

lemma installed_loop_blank_last_line:
  assumes "pointer + 1 = length lines" and "lines ! pointer = []"
  shows "installed_loop lines pointer packages = Inl TypeError"
  using assms by (subst installed_loop.simps) (simp add: at_def)

text \<open>
  C1. The claim is that \<open>parseList\<close> returns a catalog for every input string, also
  when the installed section ends in a blank line. The code does not: in the report
  below the installed section has one package and the text ends with a line break, so
  the last line is blank; the installed loop steps over it, reads \<open>lines[pointer]\<close>
  past the end of the array and throws on \<open>.startsWith\<close>.
\<close>

theorem parseList_throws_after_trailing_blank:
  "parseList ''Installed packages:\<newline>\<newline>\<newline>tools| 26.1.1| Android SDK Tools\<newline>''
     = Inl TypeError"
  by code_simp

text \<open>
  C2. The claim is that a blank line inside the available section hides that line only
  and that the data line after it is still parsed. In the code the blank line costs two
  steps of the cursor: of the three data lines below, the second one, which follows the
  blank line, is not in the result.
\<close>

theorem blank_line_skips_next_available_line:
  "parseList ''Installed packages:\<newline>\<newline>\<newline>Available Packages:\<newline>\<newline>\<newline>a| 1| d\<newline>\<newline>b| 2| e\<newline>c| 3| f''
     = Inr [\<lparr>category = ''a'', name = ''a'', rawName = ''a'', details = None,
              description = Some ''d'', version = Some ''1'', state = Available\<rparr>,
            \<lparr>category = ''c'', name = ''c'', rawName = ''c'', details = None,
              description = Some ''f'', version = Some ''3'', state = Available\<rparr>]"
  by code_simp

text \<open>
  C3, as stated: without a line that ends with \<open>Installed packages:\<close> the available
  section would be scanned from line 0. It is not: the report below has an available
  section with one data line and no installed header, and the catalog is empty.
\<close>

theorem available_without_installed_header_counterexample:
  "split_lines ''Available Packages:\<newline>\<newline>\<newline>a| 1| d''
     = [''Available Packages:'', [], [], ''a| 1| d'']
   \<and> parseList ''Available Packages:\<newline>\<newline>\<newline>a| 1| d'' = Inr []"
  by code_simp

text \<open>
  C3, amended: if no line of the input ends with \<open>Installed packages:\<close>, the skip loop
  leaves the cursor at the end of the lines, neither section is scanned, and
  \<open>parseList\<close> returns the empty catalog, whatever else the input contains.
\<close>

theorem parseList_no_installed_header:
  assumes "\<forall>l \<in> set (split_lines stdout). \<not> endsWith l ''Installed packages:''"
  shows "parseList stdout = Inr []"
  using skip_loop_no_header [OF assms, of 0]
  by (simp add: parseList_def installed_loop_at_end available_loop_at_end)

theorem parseList_no_installed_header_witness:
  "list_all (\<lambda>l. \<not> endsWith l ''Installed packages:'')
     (split_lines ''Available Packages:\<newline>\<newline>\<newline>a| 1| d'')
   \<and> parseList ''Available Packages:\<newline>\<newline>\<newline>a| 1| d'' = Inr []"
proof -
  have h: "\<forall>l \<in> set (split_lines ''Available Packages:\<newline>\<newline>\<newline>a| 1| d'').
       \<not> endsWith l ''Installed packages:''"
    by code_simp
  show ?thesis
    using h parseList_no_installed_header [OF h] by (simp add: list_all_iff)
qed

subsection \<open>The merge keeps \<open>rawName\<close> unique\<close>

lemma findIndex_None: "findIndex P xs = None \<longleftrightarrow> (\<forall>x \<in> set xs. \<not> P x)"
  by (induction xs) auto

lemma findIndex_Some:
  "findIndex P xs = Some i \<Longrightarrow> i < length xs \<and> P (xs ! i)"
proof (induction xs arbitrary: i)
  case Nil
  then show ?case by simp
next
  case (Cons x xs)
  then show ?case
    by (cases "P x") auto
qed

lemma newPackage_rawName:
  "newPackage st elements = Inr p \<Longrightarrow> at elements 0 = Some (rawName p)"
  by (auto simp: newPackage_def split: option.splits prod.splits)

lemma merge_available_distinct:
  assumes "distinct (map rawName packages)"
    and "merge_available elements packages = Inr packages'"
  shows "distinct (map rawName packages')"
proof (cases "findIndex (\<lambda>pkg. Some (rawName pkg) = at elements 0) packages")
  case None
  then obtain p where p: "newPackage Available elements = Inr p" "packages' = packages @ [p]"
    using assms(2) by (auto simp: merge_available_def split: sum.splits)
  have "\<forall>q \<in> set packages. rawName q \<noteq> rawName p"
    using None newPackage_rawName [OF p(1)] by (auto simp: findIndex_None)
  then show ?thesis
    using assms(1) p(2) by auto
next
  case (Some index)
  then have "index < length packages"
    using findIndex_Some by fastforce
  then have "map rawName packages' = map rawName packages"
    using assms(2) Some
    by (auto simp: merge_available_def Let_def map_update list_update_same_conv
             split: option.splits if_splits)
  then show ?thesis
    using assms(1) by simp
qed

lemma available_loop_distinct:
  "distinct (map rawName packages) \<Longrightarrow> available_loop lines pointer packages = Inr cat
   \<Longrightarrow> distinct (map rawName cat)"
proof (induction lines pointer packages rule: available_loop.induct)
  case (1 lines pointer packages)
  note unfold = available_loop.simps [of lines pointer packages]
  show ?case
  proof (cases "pointer < length lines")
    case False
    then show ?thesis
      using "1.prems" unfold by simp
  next
    case inb: True
    show ?thesis
    proof (cases "lines ! pointer = []")
      case True
      then have "available_loop lines (pointer + 1 + 1) packages = Inr cat"
        using "1.prems"(2) unfold inb by simp
      then show ?thesis
        using "1.IH"(1) [OF inb True "1.prems"(1)] by simp
    next
      case nonblank: False
      show ?thesis
      proof (cases "startsWith (lines ! pointer) ''Available Updates:''")
        case True
        then show ?thesis
          using "1.prems" inb nonblank unfold by simp
      next
        case False
        then obtain packages' where
          m: "merge_available (split_elements (lines ! pointer)) packages = Inr packages'"
          and r: "available_loop lines (pointer + 1) packages' = Inr cat"
          using "1.prems"(2) inb nonblank unfold
          by (auto split: sum.splits)
        have "distinct (map rawName packages')"
          using merge_available_distinct [OF "1.prems"(1) m] .
        then show ?thesis
          using "1.IH"(2) [OF inb nonblank False m] r by simp
      qed
    qed
  qed
qed

text \<open>
  C5, as stated: no two entries of a catalog returned by \<open>parseList\<close> have the same
  \<open>rawName\<close>, also when the installed section repeats a line. The installed loop
  pushes every line without a lookup: the report below has the same line twice in its
  installed section, and both entries are in the catalog.
\<close>

theorem duplicate_installed_lines_counterexample:
  "parseList ''Installed packages:\<newline>\<newline>\<newline>a| 1| d\<newline>a| 1| d''
     = Inr [\<lparr>category = ''a'', name = ''a'', rawName = ''a'', details = None,
              description = Some ''d'', version = Some ''1'', state = Installed\<rparr>,
            \<lparr>category = ''a'', name = ''a'', rawName = ''a'', details = None,
              description = Some ''d'', version = Some ''1'', state = Installed\<rparr>]"
  by code_simp

text \<open>
  C5, amended: the lookup by \<open>rawName\<close> is made for the lines of the available
  section only. If the packages pushed by the installed loop have pairwise distinct
  \<open>rawName\<close>, then so has every catalog that \<open>parseList\<close> returns: an available
  line whose \<open>rawName\<close> is in the catalog is merged into that entry, never pushed.
\<close>

theorem parseList_rawName_unique:
  assumes "installed_loop (split_lines stdout) (skip_loop (split_lines stdout) 0) []
             = Inr (pointer, installed)"
    and "distinct (map rawName installed)"
    and "parseList stdout = Inr cat"
  shows "distinct (map rawName cat)"
proof -
  have "available_loop (split_lines stdout) pointer installed = Inr cat"
    using assms(1,3) by (simp add: parseList_def)
  then show ?thesis
    using available_loop_distinct assms(2) by blast
qed

text \<open>
  The hypotheses hold for a report with two installed packages and three available
  lines, one of them an update, one new and one not newer.
\<close>

theorem parseList_rawName_unique_witness:
  "installed_loop
     (split_lines ''Installed packages:\<newline>\<newline>\<newline>a| 1| d\<newline>b| 2| e\<newline>Available Packages:\<newline>\<newline>\<newline>a| 2| d\<newline>c| 3| f\<newline>b| 2| e'')
     (skip_loop (split_lines ''Installed packages:\<newline>\<newline>\<newline>a| 1| d\<newline>b| 2| e\<newline>Available Packages:\<newline>\<newline>\<newline>a| 2| d\<newline>c| 3| f\<newline>b| 2| e'') 0) []
     = Inr (8, [\<lparr>category = ''a'', name = ''a'', rawName = ''a'', details = None,
                  description = Some ''d'', version = Some ''1'', state = Installed\<rparr>,
                \<lparr>category = ''b'', name = ''b'', rawName = ''b'', details = None,
                  description = Some ''e'', version = Some ''2'', state = Installed\<rparr>])
   \<and> parseList ''Installed packages:\<newline>\<newline>\<newline>a| 1| d\<newline>b| 2| e\<newline>Available Packages:\<newline>\<newline>\<newline>a| 2| d\<newline>c| 3| f\<newline>b| 2| e''
     = Inr [\<lparr>category = ''a'', name = ''a'', rawName = ''a'', details = None,
              description = Some ''d'', version = Some ''1(2)'', state = Updateable\<rparr>,
            \<lparr>category = ''b'', name = ''b'', rawName = ''b'', details = None,
              description = Some ''e'', version = Some ''2'', state = Installed\<rparr>,
            \<lparr>category = ''c'', name = ''c'', rawName = ''c'', details = None,
              description = Some ''f'', version = Some ''3'', state = Available\<rparr>]
   \<and> distinct [''a'', ''b'', ''c'']"
proof -
  let ?X = "''Installed packages:\<newline>\<newline>\<newline>a| 1| d\<newline>b| 2| e\<newline>Available Packages:\<newline>\<newline>\<newline>a| 2| d\<newline>c| 3| f\<newline>b| 2| e''"
  let ?inst = "[\<lparr>category = ''a'', name = ''a'', rawName = ''a'', details = None,
                  description = Some ''d'', version = Some ''1'', state = Installed\<rparr>,
                \<lparr>category = ''b'', name = ''b'', rawName = ''b'', details = None,
                  description = Some ''e'', version = Some ''2'', state = Installed\<rparr>]"
  let ?cat = "[\<lparr>category = ''a'', name = ''a'', rawName = ''a'', details = None,
              description = Some ''d'', version = Some ''1(2)'', state = Updateable\<rparr>,
            \<lparr>category = ''b'', name = ''b'', rawName = ''b'', details = None,
              description = Some ''e'', version = Some ''2'', state = Installed\<rparr>,
            \<lparr>category = ''c'', name = ''c'', rawName = ''c'', details = None,
              description = Some ''f'', version = Some ''3'', state = Available\<rparr>]"
  have h1: "installed_loop (split_lines ?X) (skip_loop (split_lines ?X) 0) [] = Inr (8, ?inst)"
    by code_simp
  have h2: "distinct (map rawName ?inst)"
    by simp
  have h3: "parseList ?X = Inr ?cat"
    by code_simp
  show ?thesis
    using h1 h3 parseList_rawName_unique [OF h1 h2 h3] by simp
qed

subsection \<open>The merge of an available line into an installed entry\<close>

text \<open>
  C6, as stated: every installed entry with the \<open>rawName\<close> of an available line and
  an older version becomes \<open>Updateable\<close>. \<open>findIndex\<close> gives the first entry with
  that \<open>rawName\<close>, and only that one is compared and rewritten: in the report below
  the installed section has the same package twice at version 1.0, the available
  version is 2.0, which compares above 1.0, and the second entry is still \<open>Installed\<close>
  with version 1.0.
\<close>

theorem duplicate_entry_not_updated_counterexample:
  "parseList ''Installed packages:\<newline>\<newline>\<newline>a;x| 1.0| desc\<newline>a;x| 1.0| desc\<newline>Available Packages:\<newline>\<newline>\<newline>a;x| 2.0| desc''
     = Inr [\<lparr>category = ''a'', name = ''x'', rawName = ''a;x'', details = None,
              description = Some ''desc'', version = Some ''1.0(2.0)'', state = Updateable\<rparr>,
            \<lparr>category = ''a'', name = ''x'', rawName = ''a;x'', details = None,
              description = Some ''desc'', version = Some ''1.0'', state = Installed\<rparr>]
   \<and> less_zero (cmpVersions ''1.0'' ''2.0'')"
  by code_simp

text \<open>
  C6, amended: an available line whose \<open>rawName\<close> is in the catalog is compared with
  the first entry of that name. When the version of that entry compares below the
  candidate version, that entry becomes \<open>Updateable\<close> and its version becomes the
  installed version followed by the candidate in parentheses; its other fields and all
  other entries, later entries of the same name included, stay as they are. Installed
  \<open>a;x| 1.0| desc\<close> with available \<open>a;x| 2.0| desc\<close> gives the single record with
  version \<open>1.0(2.0)\<close>.
\<close>

theorem merge_sets_first_entry_updateable:
  assumes "findIndex (\<lambda>pkg. Some (rawName pkg) = at elements 0) packages = Some index"
    and "version (packages ! index) = Some pv"
    and "at elements 1 = Some rv"
    and "less_zero (cmpVersions pv rv)"
  shows "merge_available elements packages
           = Inr (packages[index := (packages ! index)
                    \<lparr>state := Updateable, version := Some (pv @ ''('' @ rv @ '')'')\<rparr>])
         \<and> parseList ''Installed packages:\<newline>\<newline>\<newline>a;x| 1.0| desc\<newline>Available Packages:\<newline>\<newline>\<newline>a;x| 2.0| desc''
           = Inr [\<lparr>category = ''a'', name = ''x'', rawName = ''a;x'', details = None,
                    description = Some ''desc'', version = Some ''1.0(2.0)'',
                    state = Updateable\<rparr>]"
proof
  show "merge_available elements packages
           = Inr (packages[index := (packages ! index)
                    \<lparr>state := Updateable, version := Some (pv @ ''('' @ rv @ '')'')\<rparr>])"
    using assms by (simp add: merge_available_def)
  show "parseList ''Installed packages:\<newline>\<newline>\<newline>a;x| 1.0| desc\<newline>Available Packages:\<newline>\<newline>\<newline>a;x| 2.0| desc''
           = Inr [\<lparr>category = ''a'', name = ''x'', rawName = ''a;x'', details = None,
                    description = Some ''desc'', version = Some ''1.0(2.0)'',
                    state = Updateable\<rparr>]"
    by code_simp
qed

text \<open>
  The hypotheses hold for the elements of an available line with another description,
  met by a catalog whose second and third entries have its \<open>rawName\<close>: the second
  entry is rewritten and keeps its description, the third is left alone.
\<close>

theorem merge_sets_first_entry_updateable_witness:
  "less_zero (cmpVersions ''1.0'' ''2.0'')
   \<and> merge_available [''a;x'', ''2.0'', ''other'']
        [\<lparr>category = ''b'', name = ''b'', rawName = ''b'', details = None,
           description = Some ''first'', version = Some ''0.1'', state = Installed\<rparr>,
         \<lparr>category = ''a'', name = ''x'', rawName = ''a;x'', details = None,
           description = Some ''desc'', version = Some ''1.0'', state = Installed\<rparr>,
         \<lparr>category = ''a'', name = ''x'', rawName = ''a;x'', details = None,
           description = Some ''again'', version = Some ''1.0'', state = Installed\<rparr>]
      = Inr [\<lparr>category = ''b'', name = ''b'', rawName = ''b'', details = None,
               description = Some ''first'', version = Some ''0.1'', state = Installed\<rparr>,
             \<lparr>category = ''a'', name = ''x'', rawName = ''a;x'', details = None,
               description = Some ''desc'', version = Some ''1.0(2.0)'', state = Updateable\<rparr>,
             \<lparr>category = ''a'', name = ''x'', rawName = ''a;x'', details = None,
               description = Some ''again'', version = Some ''1.0'', state = Installed\<rparr>]"
proof -
  let ?els = "[''a;x'', ''2.0'', ''other'']"
  let ?pkgs = "[\<lparr>category = ''b'', name = ''b'', rawName = ''b'', details = None,
           description = Some ''first'', version = Some ''0.1'', state = Installed\<rparr>,
         \<lparr>category = ''a'', name = ''x'', rawName = ''a;x'', details = None,
           description = Some ''desc'', version = Some ''1.0'', state = Installed\<rparr>,
         \<lparr>category = ''a'', name = ''x'', rawName = ''a;x'', details = None,
           description = Some ''again'', version = Some ''1.0'', state = Installed\<rparr>]"
  have h1: "findIndex (\<lambda>pkg. Some (rawName pkg) = at ?els 0) ?pkgs = Some 1"
    by code_simp
  have h2: "version (?pkgs ! 1) = Some ''1.0''"
    by simp
  have h3: "at ?els 1 = Some ''2.0''"
    by code_simp
  have h4: "less_zero (cmpVersions ''1.0'' ''2.0'')"
    by code_simp
  show ?thesis
    using h4 merge_sets_first_entry_updateable [OF h1 h2 h3 h4] by simp
qed



subsection \<open>The version comparator\<close>

text \<open>
  Numbers below \<open>2^53\<close> in magnitude are exact; a value and itself never have a
  truthy difference.
\<close>

lemma to_double_exact: "\<bar>n\<bar> < 2 ^ 53 \<Longrightarrow> to_double n = Num n"
  by (simp add: to_double_def)

lemma num_sub_NaN_right: "num_sub x NaN = NaN"
  by (cases x) simp_all

lemma num_sub_same_falsy: "\<not> truthy (num_sub x x)"
  by (cases x) (simp_all add: to_double_def)

text \<open>
  The rounding at its edges: ties go to the even neighbour, the largest finite Number
  is \<open>2^1024 - 2^971\<close>, and an integer from \<open>2^1024 - 2^970\<close> on is infinite.
\<close>

lemma to_double_rounding:
  "to_double 9007199254740993 = Num 9007199254740992
   \<and> to_double 9007199254740995 = Num 9007199254740996
   \<and> to_double (- 9007199254740993) = Num (- 9007199254740992)
   \<and> to_double 18014398509481986 = Num 18014398509481984
   \<and> to_double 18014398509481990 = Num 18014398509481992
   \<and> to_double 179769313486231580793728971405303415079934132710037826936173778980444968292764750946649017977587207096330286416692887910946555547851940402630657488671505820681908902000708383676273854845817711531764475730270069855571366959622842914819860834936475292719074168444365510704342711559699508093042880177904174497791
       = Num 179769313486231570814527423731704356798070567525844996598917476803157260780028538760589558632766878171540458953514382464234321326889464182768467546703537516986049910576551282076245490090389328944075868508455133942304583236903222948165808559332123348274797826204144723168738177180919299881250404026184124858368
   \<and> to_double 179769313486231580793728971405303415079934132710037826936173778980444968292764750946649017977587207096330286416692887910946555547851940402630657488671505820681908902000708383676273854845817711531764475730270069855571366959622842914819860834936475292719074168444365510704342711559699508093042880177904174497792
       = PosInfinity"
  by code_simp

text \<open>
  Segments are compared as Numbers. From \<open>2^53\<close> on, neighbouring integers parse to
  the same Number and their difference is zero, so the next segment decides.
\<close>

lemma cmpVersions_rounds_large_segments:
  "cmpVersions ''9007199254740993'' ''9007199254740992'' = Num 0
   \<and> cmpVersions ''9007199254740993.1'' ''9007199254740992.2'' = Num (- 1)
   \<and> cmpVersions ''9007199254740994'' ''9007199254740992'' = Num 2"
  by code_simp

text \<open>
  A segment of 310 digits parses to infinity; two such segments have the difference
  not-a-number, and the next segment decides.
\<close>

lemma cmpVersions_infinite_segments:
  "cmpVersions (CHR ''1'' # replicate 309 CHR ''0'' @ ''.1'')
               (CHR ''2'' # replicate 309 CHR ''0'' @ ''.2'') = Num (- 1)"
  by code_simp












lemma cmp_loop_find:
  assumes "l = min (length sa) (length sb)" and "i \<le> l"
  shows "cmp_loop sa sb l i =
     (case find truthy
             (map (\<lambda>(x, y). num_sub (parseInt x) (parseInt y)) (drop i (zip sa sb))) of
        Some d \<Rightarrow> d
      | None \<Rightarrow> Num (int (length sa) - int (length sb)))"
  using assms
proof (induction sa sb l i rule: cmp_loop.induct)
  case (1 sa sb l i)
  note unfold = cmp_loop.simps [of sa sb l i]
  show ?case
  proof (cases "i < l")
    case False
    then have "drop i (zip sa sb) = []"
      using "1.prems" by auto
    then show ?thesis
      using False unfold by simp
  next
    case True
    then have "i < length (zip sa sb)"
      using "1.prems" by simp
    then have dr: "drop i (zip sa sb) = (sa ! i, sb ! i) # drop (i + 1) (zip sa sb)"
      by (simp add: Cons_nth_drop_Suc [symmetric])
    show ?thesis
    proof (cases "truthy (num_sub (parseInt (sa ! i)) (parseInt (sb ! i)))")
      case decided: True
      then show ?thesis
        using True unfold dr by simp
    next
      case False
      then show ?thesis
        using True unfold dr "1.IH" [OF True False "1.prems"(1)] by simp
    qed
  qed
qed

lemma cmpVersions_eq_spec: "cmpVersions a b = cmpVersions_spec a b"
  using cmp_loop_find [of "min (length (js_split ''.'' (strip0 a))) (length (js_split ''.'' (strip0 b)))"
      "js_split ''.'' (strip0 a)" "js_split ''.'' (strip0 b)" 0]
  by (simp add: cmpVersions_def cmpVersions_spec_def Let_def)

lemma cmp_loop_nan_step:
  assumes "i < l" and "parseInt (sa ! i) = NaN \<or> parseInt (sb ! i) = NaN"
  shows "cmp_loop sa sb l i = cmp_loop sa sb l (i + 1)"
proof -
  have "num_sub (parseInt (sa ! i)) (parseInt (sb ! i)) = NaN"
    using assms(2) by (auto simp: num_sub_NaN_right)
  then show ?thesis
    using assms(1) by (subst cmp_loop.simps) simp
qed

lemma cmp_loop_later_pair_decides:
  assumes "i \<le> k" and "k < l"
    and "\<forall>j. i \<le> j \<and> j < k \<longrightarrow> parseInt (sa ! j) = NaN \<or> parseInt (sb ! j) = NaN"
    and "truthy (num_sub (parseInt (sa ! k)) (parseInt (sb ! k)))"
  shows "cmp_loop sa sb l i = num_sub (parseInt (sa ! k)) (parseInt (sb ! k))"
  using assms
proof (induction "k - i" arbitrary: i)
  case 0
  then have "i = k" by simp
  then show ?case
    using "0.prems"(2,4) by (subst cmp_loop.simps) simp
next
  case (Suc d)
  then have lt: "i < k" by simp
  then have "parseInt (sa ! i) = NaN \<or> parseInt (sb ! i) = NaN"
    using Suc.prems(3) by simp
  then have "cmp_loop sa sb l i = cmp_loop sa sb l (i + 1)"
    using cmp_loop_nan_step lt Suc.prems(2) by simp
  moreover have "cmp_loop sa sb l (i + 1) = num_sub (parseInt (sa ! k)) (parseInt (sb ! k))"
  proof (rule Suc.hyps(1))
    show "d = k - (i + 1)" using Suc.hyps(2) by simp
    show "i + 1 \<le> k" using lt by simp
    show "k < l" by (rule Suc.prems(2))
    show "\<forall>j. i + 1 \<le> j \<and> j < k \<longrightarrow> parseInt (sa ! j) = NaN \<or> parseInt (sb ! j) = NaN"
      using Suc.prems(3) by simp
    show "truthy (num_sub (parseInt (sa ! k)) (parseInt (sb ! k)))"
      by (rule Suc.prems(4))
  qed
  ultimately show ?case by simp
qed

lemma cmpVersions_undecided:
  assumes "\<forall>(x, y) \<in> set (zip (js_split ''.'' (strip0 a)) (js_split ''.'' (strip0 b))).
             parseInt x = NaN \<or> parseInt y = NaN \<or> parseInt x = parseInt y"
  shows "cmpVersions a b
           = Num (int (length (js_split ''.'' (strip0 a)))
                  - int (length (js_split ''.'' (strip0 b))))"
proof -
  let ?diffs = "map (\<lambda>(x, y). num_sub (parseInt x) (parseInt y))
                  (zip (js_split ''.'' (strip0 a)) (js_split ''.'' (strip0 b)))"
  have "\<forall>d \<in> set ?diffs. \<not> truthy d"
    using assms num_sub_same_falsy by (fastforce simp: num_sub_NaN_right)
  then have "find truthy ?diffs = None"
    unfolding find_None_iff by blast
  then show ?thesis
    unfolding cmpVersions_eq_spec cmpVersions_spec_def Let_def by simp
qed


text \<open>
  C10. A pair of segments of which one does not parse as an integer has a
  not-a-number difference, which is falsy: the loop goes on with the next index, and
  the first later pair with a truthy difference decides. When every compared pair is
  either such a pair or a pair of equal Numbers, nothing decides and the result is the
  difference of the segment counts. \<open>cmpVersions\<close> has no failing branch: on strings
  it always returns a Number.
\<close>

theorem cmpVersions_non_numeric_segments:
  "(i < l \<and> (parseInt (sa ! i) = NaN \<or> parseInt (sb ! i) = NaN)
      \<longrightarrow> cmp_loop sa sb l i = cmp_loop sa sb l (i + 1))
   \<and> (i \<le> k \<and> k < l
       \<and> (\<forall>j. i \<le> j \<and> j < k \<longrightarrow> parseInt (sa ! j) = NaN \<or> parseInt (sb ! j) = NaN)
       \<and> truthy (num_sub (parseInt (sa ! k)) (parseInt (sb ! k)))
      \<longrightarrow> cmp_loop sa sb l i = num_sub (parseInt (sa ! k)) (parseInt (sb ! k)))
   \<and> ((\<forall>(x, y) \<in> set (zip (js_split ''.'' (strip0 a)) (js_split ''.'' (strip0 b))).
          parseInt x = NaN \<or> parseInt y = NaN \<or> parseInt x = parseInt y)
      \<longrightarrow> cmpVersions a b
            = Num (int (length (js_split ''.'' (strip0 a)))
                   - int (length (js_split ''.'' (strip0 b)))))
   \<and> cmpVersions ''1.alpha'' ''1.beta'' = Num 0
   \<and> cmpVersions ''beta'' ''beta.1'' = Num (- 1) \<and> less_zero (cmpVersions ''beta'' ''beta.1'')
   \<and> cmpVersions ''alpha.1'' ''alpha.2'' = Num (- 1)
   \<and> cmpVersions ''alpha.2'' ''alpha.1'' = Num 1
   \<and> cmpVersions ''1.x.3'' ''1.y.2'' = Num 1"
proof -
  have "cmpVersions ''1.alpha'' ''1.beta'' = Num 0"
    "cmpVersions ''beta'' ''beta.1'' = Num (- 1)" "less_zero (cmpVersions ''beta'' ''beta.1'')"
    "cmpVersions ''alpha.1'' ''alpha.2'' = Num (- 1)"
    "cmpVersions ''alpha.2'' ''alpha.1'' = Num 1"
    "cmpVersions ''1.x.3'' ''1.y.2'' = Num 1"
    by code_simp+
  moreover have "cmp_loop sa sb l i = num_sub (parseInt (sa ! k)) (parseInt (sb ! k))"
    if "i \<le> k \<and> k < l
       \<and> (\<forall>j. i \<le> j \<and> j < k \<longrightarrow> parseInt (sa ! j) = NaN \<or> parseInt (sb ! j) = NaN)
       \<and> truthy (num_sub (parseInt (sa ! k)) (parseInt (sb ! k)))"
    using that cmp_loop_later_pair_decides [of i k l sa sb] by blast
  ultimately show ?thesis
    using cmp_loop_nan_step [of i l sa sb] cmpVersions_undecided [of a b] by blast
qed

text \<open>
  The hypotheses hold at concrete segments: for \<open>x.7\<close> against \<open>y.9\<close> the pair
  at index 0 is skipped and the pair at index 1 decides with the difference \<open>-2\<close>;
  for \<open>7.beta.rc\<close>, which has three segments, against \<open>7.1.2.4\<close>, which has four,
  nothing decides.
\<close>

theorem cmpVersions_non_numeric_segments_witness:
  "parseInt ([''x'', ''7''] ! 0) = NaN
   \<and> cmp_loop [''x'', ''7''] [''y'', ''9''] 2 0 = cmp_loop [''x'', ''7''] [''y'', ''9''] 2 (0 + 1)
   \<and> num_sub (parseInt ([''x'', ''7''] ! 1)) (parseInt ([''y'', ''9''] ! 1)) = Num (- 2)
   \<and> cmp_loop [''x'', ''7''] [''y'', ''9''] 2 0 = Num (- 2)
   \<and> list_all (\<lambda>(x, y). parseInt x = NaN \<or> parseInt y = NaN \<or> parseInt x = parseInt y)
        (zip (js_split ''.'' (strip0 ''7.beta.rc'')) (js_split ''.'' (strip0 ''7.1.2.4'')))
   \<and> cmpVersions ''7.beta.rc'' ''7.1.2.4'' = Num (- 1)"
proof -
  let ?sa = "[''x'', ''7'']" and ?sb = "[''y'', ''9'']"
  have h1: "(0::nat) < 2 \<and> (parseInt (?sa ! 0) = NaN \<or> parseInt (?sb ! 0) = NaN)"
    by code_simp
  have n0: "parseInt (?sa ! 0) = NaN"
    by code_simp
  have d: "num_sub (parseInt (?sa ! 1)) (parseInt (?sb ! 1)) = Num (- 2)"
    by code_simp
  have h2: "(0::nat) \<le> 1 \<and> (1::nat) < 2
       \<and> (\<forall>j. 0 \<le> j \<and> j < (1::nat) \<longrightarrow> parseInt (?sa ! j) = NaN \<or> parseInt (?sb ! j) = NaN)
       \<and> truthy (num_sub (parseInt (?sa ! 1)) (parseInt (?sb ! 1)))"
    using n0 d by simp
  have g: "\<forall>(x, y) \<in> set (zip (js_split ''.'' (strip0 ''7.beta.rc''))
                               (js_split ''.'' (strip0 ''7.1.2.4''))).
             parseInt x = NaN \<or> parseInt y = NaN \<or> parseInt x = parseInt y"
    by code_simp
  have e: "int (length (js_split ''.'' (strip0 ''7.beta.rc'')))
       - int (length (js_split ''.'' (strip0 ''7.1.2.4''))) = - 1"
    by code_simp
  note t = cmpVersions_non_numeric_segments [of 0 2 ?sa ?sb 1 "''7.beta.rc''" "''7.1.2.4''"]
  have s1: "cmp_loop ?sa ?sb 2 0 = cmp_loop ?sa ?sb 2 (0 + 1)"
    using t h1 by blast
  have s2: "cmp_loop ?sa ?sb 2 0 = num_sub (parseInt (?sa ! 1)) (parseInt (?sb ! 1))"
    using t h2 by blast
  have s3: "cmpVersions ''7.beta.rc'' ''7.1.2.4''
      = Num (int (length (js_split ''.'' (strip0 ''7.beta.rc'')))
             - int (length (js_split ''.'' (strip0 ''7.1.2.4''))))"
    using t g by blast
  show ?thesis
    using n0 s1 s2 d s3 e g by (simp add: list_all_iff)
qed

subsection \<open>The record parser\<close>

lemma pipe_prefix_iff:
  "take (length ''| '') (c # cs) = ''| '' \<longleftrightarrow> c = CHR ''|'' \<and> take 1 cs = '' ''"
  by auto

lemma no_pipe_tail: "\<not> sublist ''| '' (c # A) \<Longrightarrow> \<not> sublist ''| '' A"
  by (simp add: sublist_Cons_right)

lemma no_pipe_head: "\<not> sublist ''| '' (c # A) \<Longrightarrow> \<not> (c = CHR ''|'' \<and> take 1 A = '' '')"
  by (cases A) (auto simp: sublist_Cons_right)

lemma js_split_no_sep: "\<not> sublist ''| '' C \<Longrightarrow> js_split ''| '' C = [C]"
proof (induction C)
  case Nil
  then show ?case by (simp add: js_split.simps)
next
  case (Cons c C)
  have "js_split ''| '' C = [C]"
    using Cons.IH no_pipe_tail [OF Cons.prems] by simp
  moreover have "\<not> (take (length ''| '') (c # C) = ''| '')"
    using no_pipe_head [OF Cons.prems] unfolding pipe_prefix_iff .
  ultimately show ?case
    by (subst js_split.simps) simp
qed

lemma js_split_pipe_field:
  "\<not> sublist ''| '' A \<Longrightarrow> js_split ''| '' (A @ ''| '' @ rest) = A # js_split ''| '' rest"
proof (induction A)
  case Nil
  show ?case
    by (simp add: js_split.simps)
next
  case (Cons c A)
  have ih: "js_split ''| '' (A @ ''| '' @ rest) = A # js_split ''| '' rest"
    using Cons.IH no_pipe_tail [OF Cons.prems] by simp
  have "\<not> (c = CHR ''|'' \<and> take 1 (A @ ''| '' @ rest) = '' '')"
    using no_pipe_head [OF Cons.prems] by (cases A) auto
  then have "\<not> (take (length ''| '') (c # A @ ''| '' @ rest) = ''| '')"
    unfolding pipe_prefix_iff .
  then have "js_split ''| '' (c # (A @ ''| '' @ rest)) = (c # A) # js_split ''| '' rest"
    using ih by (subst js_split.simps) simp
  then show ?case
    by simp
qed

lemma split_elements_three_fields:
  assumes "\<not> sublist ''| '' A" and "\<not> sublist ''| '' B" and "\<not> sublist ''| '' C"
  shows "split_elements (A @ ''| '' @ B @ ''| '' @ C) = [trim A, trim B, trim C]"
  using js_split_pipe_field [OF assms(1), of "B @ ''| '' @ C"]
    js_split_pipe_field [OF assms(2), of C] js_split_no_sep [OF assms(3)]
  by (simp add: split_elements_def)

text \<open>
  C9, as stated: a line \<open>A| B| C\<close> gives \<open>rawName = A\<close>, and \<open>name\<close> is the
  segments after the first one rejoined with \<open>; \<close> whenever there are any. Two lines
  show otherwise. The fields are trimmed: in the first line, padded as the tool prints
  it, \<open>A\<close> has two leading blanks and a trailing one and the \<open>rawName\<close> has none. An
  empty second segment makes \<open>name\<close> the first segment although segments remain: in
  the second line the remaining segments rejoined are \<open>; b\<close> and the \<open>name\<close> is \<open>a\<close>.
\<close>

theorem record_parser_counterexample:
  "newPackage Installed
      (split_elements (''  platforms;android-30 '' @ ''| '' @ ''11 '' @ ''| '' @ ''Android SDK Platform 30''))
     = Inr \<lparr>category = ''platforms'', name = ''android-30'',
             rawName = ''platforms;android-30'', details = None,
             description = Some ''Android SDK Platform 30'', version = Some ''11'',
             state = Installed\<rparr>
   \<and> newPackage Installed (split_elements (''a;;b'' @ ''| '' @ ''1'' @ ''| '' @ ''d''))
     = Inr \<lparr>category = ''a'', name = ''a'', rawName = ''a;;b'', details = None,
             description = Some ''d'', version = Some ''1'', state = Installed\<rparr>
   \<and> js_join ''; '' (drop 1 (js_split '';'' ''a;;b'')) = ''; b''"
  by code_simp

text \<open>
  C9, amended: for a line \<open>A| B| C\<close> whose fields do not contain the delimiter, the
  record has \<open>rawName\<close>, \<open>version\<close> and \<open>description\<close> equal to \<open>A\<close>, \<open>B\<close>
  and \<open>C\<close> with the white space around them removed; \<open>category\<close> is the first
  \<open>;\<close>-segment of \<open>rawName\<close>; \<open>name\<close> is the remaining segments rejoined with
  \<open>; \<close> when there is a second segment and it is not empty, and the first segment
  otherwise.
\<close>

theorem record_parser_three_fields:
  assumes "\<not> sublist ''| '' A" and "\<not> sublist ''| '' B" and "\<not> sublist ''| '' C"
  shows "newPackage st (split_elements (A @ ''| '' @ B @ ''| '' @ C))
           = Inr \<lparr>category = hd (js_split '';'' (trim A)),
                  name = (case js_split '';'' (trim A) of
                            c # n1 # ns \<Rightarrow> if n1 \<noteq> [] then js_join ''; '' (n1 # ns) else c
                          | _ \<Rightarrow> hd (js_split '';'' (trim A))),
                  rawName = trim A, details = None, description = Some (trim C),
                  version = Some (trim B), state = st\<rparr>"
  unfolding split_elements_three_fields [OF assms]
  by (auto simp: newPackage_def parsePackageName_def at_def Let_def split: list.splits)

text \<open>
  The hypotheses hold for a padded line with an empty second segment and for a line
  with three segments.
\<close>

theorem record_parser_three_fields_witness:
  "newPackage Installed (split_elements ('' a;;b'' @ ''| '' @ ''1 '' @ ''| '' @ ''d''))
      = Inr \<lparr>category = ''a'', name = ''a'', rawName = ''a;;b'', details = None,
              description = Some ''d'', version = Some ''1'', state = Installed\<rparr>
   \<and> newPackage Available
        (split_elements (''platforms;android-30;x'' @ ''| '' @ ''3'' @ ''| '' @ ''SDK''))
      = Inr \<lparr>category = ''platforms'', name = ''android-30; x'',
              rawName = ''platforms;android-30;x'', details = None,
              description = Some ''SDK'', version = Some ''3'', state = Available\<rparr>"
proof -
  have h: "\<not> sublist ''| '' '' a;;b''" "\<not> sublist ''| '' ''1 ''" "\<not> sublist ''| '' ''d''"
    "\<not> sublist ''| '' ''platforms;android-30;x''" "\<not> sublist ''| '' ''3''" "\<not> sublist ''| '' ''SDK''"
    by code_simp+
  have "js_split '';'' (trim '' a;;b'') = [''a'', [], ''b'']" "trim '' a;;b'' = ''a;;b''"
    "trim ''1 '' = ''1''" "trim ''d'' = ''d''"
    "js_split '';'' (trim ''platforms;android-30;x'') = [''platforms'', ''android-30'', ''x'']"
    "trim ''platforms;android-30;x'' = ''platforms;android-30;x''"
    "trim ''3'' = ''3''" "trim ''SDK'' = ''SDK''"
    by code_simp+
  then show ?thesis
    using record_parser_three_fields [OF h(1,2,3), of Installed]
      record_parser_three_fields [OF h(4,5,6), of Available]
    by simp
qed

subsection \<open>Sorting\<close>

lemma mset_insert_by: "mset (insert_by cmp x ys) = add_mset x (mset ys)"
  by (induction ys) auto

lemma mset_foldl_insert_by:
  "mset (foldl (\<lambda>acc x. insert_by cmp x acc) acc xs) = mset acc + mset xs"
  by (induction xs arbitrary: acc) (auto simp: mset_insert_by)

lemma mset_array_sort: "mset (array_sort cmp xs) = mset xs"
  by (simp add: array_sort_def mset_foldl_insert_by)

lemma set_insert_by: "set (insert_by cmp x ys) = insert x (set ys)"
  by (induction ys) auto

lemma sorted_wrt_insert_by:
  assumes "transp R" and "\<And>x y. cmp x y < 0 \<Longrightarrow> R x y" and "\<And>x y. \<not> cmp x y < 0 \<Longrightarrow> R y x"
  shows "sorted_wrt R ys \<Longrightarrow> sorted_wrt R (insert_by cmp x ys)"
proof (induction ys)
  case Nil
  then show ?case by simp
next
  case (Cons y ys)
  show ?case
  proof (cases "cmp x y < 0")
    case True
    then have "R x y" by (rule assms(2))
    moreover have "\<forall>z \<in> set ys. R x z"
      using Cons.prems \<open>R x y\<close> assms(1) by (auto dest: transpD)
    ultimately show ?thesis
      using True Cons.prems by simp
  next
    case False
    then have "R y x" by (rule assms(3))
    then show ?thesis
      using False Cons by (auto simp: set_insert_by)
  qed
qed

lemma sorted_wrt_array_sort:
  assumes "transp R" and "\<And>x y. cmp x y < 0 \<Longrightarrow> R x y" and "\<And>x y. \<not> cmp x y < 0 \<Longrightarrow> R y x"
  shows "sorted_wrt R (array_sort cmp xs)"
proof -
  have "sorted_wrt R acc \<Longrightarrow> sorted_wrt R (foldl (\<lambda>acc x. insert_by cmp x acc) acc xs)" for acc
  proof (induction xs arbitrary: acc)
    case Nil
    then show ?case by simp
  next
    case (Cons x xs)
    then show ?case
      using sorted_wrt_insert_by [OF assms] by simp
  qed
  then show ?thesis
    by (simp add: array_sort_def)
qed

lemma sorted_asc:
  "sorted_wrt (\<lambda>a b. toLowerCase (rawName a) \<le> toLowerCase (rawName b))
     (array_sort (compareFn ''asc'') xs)"
proof (rule sorted_wrt_array_sort)
  show "transp (\<lambda>a b. toLowerCase (rawName a) \<le> toLowerCase (rawName b))"
    by (auto intro!: transpI)
qed (auto simp: compareFn_def Let_def split: if_splits)

lemma sorted_desc:
  "order \<noteq> ''asc'' \<Longrightarrow>
   sorted_wrt (\<lambda>a b. toLowerCase (rawName b) \<le> toLowerCase (rawName a))
     (array_sort (compareFn order) xs)"
proof (rule sorted_wrt_array_sort)
  show "transp (\<lambda>a b. toLowerCase (rawName b) \<le> toLowerCase (rawName a))"
    by (auto intro!: transpI)
qed (auto simp: compareFn_def Let_def split: if_splits)

text \<open>
  C4, as stated: \<open>sort\<close> is pure and leaves the input array unchanged. It calls
  \<open>Array.prototype.sort\<close> on the array it is given, which sorts in place: the array
  at address 0 holds the packages b, A, c before the call and A, b, c after it.
\<close>

theorem sort_mutates_input_counterexample:
  "[0 \<mapsto> [\<lparr>category = ''b'', name = ''b'', rawName = ''b'', details = None,
           description = None, version = Some ''1'', state = Available\<rparr>,
          \<lparr>category = ''A'', name = ''A'', rawName = ''A'', details = None,
           description = None, version = Some ''2'', state = Installed\<rparr>,
          \<lparr>category = ''c'', name = ''c'', rawName = ''c'', details = None,
           description = None, version = Some ''3'', state = Updateable\<rparr>]] (0::nat)
     = Some [\<lparr>category = ''b'', name = ''b'', rawName = ''b'', details = None,
           description = None, version = Some ''1'', state = Available\<rparr>,
          \<lparr>category = ''A'', name = ''A'', rawName = ''A'', details = None,
           description = None, version = Some ''2'', state = Installed\<rparr>,
          \<lparr>category = ''c'', name = ''c'', rawName = ''c'', details = None,
           description = None, version = Some ''3'', state = Updateable\<rparr>]
   \<and> fst (sort_packages [0 \<mapsto> [\<lparr>category = ''b'', name = ''b'', rawName = ''b'', details = None,
           description = None, version = Some ''1'', state = Available\<rparr>,
          \<lparr>category = ''A'', name = ''A'', rawName = ''A'', details = None,
           description = None, version = Some ''2'', state = Installed\<rparr>,
          \<lparr>category = ''c'', name = ''c'', rawName = ''c'', details = None,
           description = None, version = Some ''3'', state = Updateable\<rparr>]] 0 ''asc'') 0
     = Some [\<lparr>category = ''A'', name = ''A'', rawName = ''A'', details = None,
           description = None, version = Some ''2'', state = Installed\<rparr>,
          \<lparr>category = ''b'', name = ''b'', rawName = ''b'', details = None,
           description = None, version = Some ''1'', state = Available\<rparr>,
          \<lparr>category = ''c'', name = ''c'', rawName = ''c'', details = None,
           description = None, version = Some ''3'', state = Updateable\<rparr>]"
  by code_simp

text \<open>
  C4, amended: \<open>sort\<close> reorders the array it is given in place and returns that same
  array; nothing else in the store changes. The array then holds the same packages as
  before, every field of each as it was, ordered by the lower-cased \<open>rawName\<close>:
  ascending for the flag \<open>asc\<close>, descending for any other flag, which includes the
  default \<open>desc\<close>.
\<close>

theorem sort_in_place:
  assumes "h packages = Some xs"
  shows "(\<exists>ys. sort_packages h packages order = (h(packages \<mapsto> ys), packages)
            \<and> mset ys = mset xs
            \<and> (if order = ''asc''
               then sorted_wrt (\<lambda>a b. toLowerCase (rawName a) \<le> toLowerCase (rawName b)) ys
               else sorted_wrt (\<lambda>a b. toLowerCase (rawName b) \<le> toLowerCase (rawName a)) ys))
         \<and> sort_packages_default h packages = sort_packages h packages ''desc''"
proof (intro exI conjI)
  show "sort_packages h packages order = (h(packages \<mapsto> array_sort (compareFn order) xs), packages)"
    using assms by (simp add: sort_packages_def)
  show "mset (array_sort (compareFn order) xs) = mset xs"
    by (rule mset_array_sort)
  show "if order = ''asc''
        then sorted_wrt (\<lambda>a b. toLowerCase (rawName a) \<le> toLowerCase (rawName b))
               (array_sort (compareFn order) xs)
        else sorted_wrt (\<lambda>a b. toLowerCase (rawName b) \<le> toLowerCase (rawName a))
               (array_sort (compareFn order) xs)"
    using sorted_asc sorted_desc by (cases "order = ''asc''") simp_all
  show "sort_packages_default h packages = sort_packages h packages ''desc''"
    by (simp add: sort_packages_default_def)
qed

text \<open>
  The hypothesis holds for the store of the counterexample; the example of the
  specification comes out as A, b, c ascending and c, b, A by default.
\<close>

theorem sort_in_place_witness:
  "fst (sort_packages [0 \<mapsto> [\<lparr>category = ''b'', name = ''b'', rawName = ''b'', details = None,
           description = None, version = Some ''1'', state = Available\<rparr>,
          \<lparr>category = ''A'', name = ''A'', rawName = ''A'', details = None,
           description = None, version = Some ''2'', state = Installed\<rparr>,
          \<lparr>category = ''c'', name = ''c'', rawName = ''c'', details = None,
           description = None, version = Some ''3'', state = Updateable\<rparr>]] 0 ''asc'') 0
     = Some [\<lparr>category = ''A'', name = ''A'', rawName = ''A'', details = None,
           description = None, version = Some ''2'', state = Installed\<rparr>,
          \<lparr>category = ''b'', name = ''b'', rawName = ''b'', details = None,
           description = None, version = Some ''1'', state = Available\<rparr>,
          \<lparr>category = ''c'', name = ''c'', rawName = ''c'', details = None,
           description = None, version = Some ''3'', state = Updateable\<rparr>]
   \<and> fst (sort_packages_default [0 \<mapsto> [\<lparr>category = ''b'', name = ''b'', rawName = ''b'', details = None,
           description = None, version = Some ''1'', state = Available\<rparr>,
          \<lparr>category = ''A'', name = ''A'', rawName = ''A'', details = None,
           description = None, version = Some ''2'', state = Installed\<rparr>,
          \<lparr>category = ''c'', name = ''c'', rawName = ''c'', details = None,
           description = None, version = Some ''3'', state = Updateable\<rparr>]] 0) 0
     = Some [\<lparr>category = ''c'', name = ''c'', rawName = ''c'', details = None,
           description = None, version = Some ''3'', state = Updateable\<rparr>,
          \<lparr>category = ''b'', name = ''b'', rawName = ''b'', details = None,
           description = None, version = Some ''1'', state = Available\<rparr>,
          \<lparr>category = ''A'', name = ''A'', rawName = ''A'', details = None,
           description = None, version = Some ''2'', state = Installed\<rparr>]
   \<and> (\<exists>ys. sort_packages [0 \<mapsto> [\<lparr>category = ''b'', name = ''b'', rawName = ''b'', details = None,
           description = None, version = Some ''1'', state = Available\<rparr>,
          \<lparr>category = ''A'', name = ''A'', rawName = ''A'', details = None,
           description = None, version = Some ''2'', state = Installed\<rparr>,
          \<lparr>category = ''c'', name = ''c'', rawName = ''c'', details = None,
           description = None, version = Some ''3'', state = Updateable\<rparr>]] 0 ''asc'' = ([0 \<mapsto> ys], 0)
          \<and> mset ys = mset [\<lparr>category = ''b'', name = ''b'', rawName = ''b'', details = None,
           description = None, version = Some ''1'', state = Available\<rparr>,
          \<lparr>category = ''A'', name = ''A'', rawName = ''A'', details = None,
           description = None, version = Some ''2'', state = Installed\<rparr>,
          \<lparr>category = ''c'', name = ''c'', rawName = ''c'', details = None,
           description = None, version = Some ''3'', state = Updateable\<rparr>]
          \<and> sorted_wrt (\<lambda>a b. toLowerCase (rawName a) \<le> toLowerCase (rawName b)) ys)"
proof -
  let ?xs = "[\<lparr>category = ''b'', name = ''b'', rawName = ''b'', details = None,
           description = None, version = Some ''1'', state = Available\<rparr>,
          \<lparr>category = ''A'', name = ''A'', rawName = ''A'', details = None,
           description = None, version = Some ''2'', state = Installed\<rparr>,
          \<lparr>category = ''c'', name = ''c'', rawName = ''c'', details = None,
           description = None, version = Some ''3'', state = Updateable\<rparr>]"
  have h: "[0 \<mapsto> ?xs] (0::nat) = Some ?xs"
    by simp
  have e: "fst (sort_packages [0 \<mapsto> ?xs] 0 ''asc'') 0 = Some [\<lparr>category = ''A'', name = ''A'', rawName = ''A'', details = None,
           description = None, version = Some ''2'', state = Installed\<rparr>,
          \<lparr>category = ''b'', name = ''b'', rawName = ''b'', details = None,
           description = None, version = Some ''1'', state = Available\<rparr>,
          \<lparr>category = ''c'', name = ''c'', rawName = ''c'', details = None,
           description = None, version = Some ''3'', state = Updateable\<rparr>]"
    "fst (sort_packages_default [0 \<mapsto> ?xs] 0) 0 = Some [\<lparr>category = ''c'', name = ''c'', rawName = ''c'', details = None,
           description = None, version = Some ''3'', state = Updateable\<rparr>,
          \<lparr>category = ''b'', name = ''b'', rawName = ''b'', details = None,
           description = None, version = Some ''1'', state = Available\<rparr>,
          \<lparr>category = ''A'', name = ''A'', rawName = ''A'', details = None,
           description = None, version = Some ''2'', state = Installed\<rparr>]"
    by code_simp+
  show ?thesis
    using e sort_in_place [of "[0 \<mapsto> ?xs]" 0 ?xs "''asc''", OF h] by simp
qed

end
